theory Spec2Isabelle
  imports Main
begin

section \<open>Native audio recorder (extension/src/services/native-audio-recorder.ts)\<close>

subsection \<open>Wire data\<close>

text \<open>
  \<open>NativeRecordingResponse\<close> and \<open>NativePingResponse\<close> share \<open>success\<close> and \<open>error\<close>;
  \<open>sendMessage\<close> returns \<open>any\<close>, so one record carries the fields of both interfaces.
  Optional fields are \<open>option\<close>s.
\<close>

record response =
  success :: bool
  audioBase64 :: "string option"
  format :: "string option"
  error :: "string option"
  audioSystem :: "string option"
  message :: "string option"

text \<open>The two messages the class posts: \<open>{command: 'ping'}\<close> and
  \<open>{command: 'record', duration, encodeMp3}\<close>.\<close>

datatype native_message = Ping | Record int bool

text \<open>
  What the platform delivers on one native port: a message, or a disconnect with
  \<open>browser.runtime.lastError\<close> set (\<open>Some msg\<close>) or unset (\<open>None\<close>). Each event carries
  the time, in milliseconds after \<open>connectNative\<close>, at which its listener runs.
\<close>

datatype port_event = OnMessage response | OnDisconnect "string option"

text \<open>
  The environment's side of one \<open>browser.runtime.connectNative\<close> call: it throws (the
  stringified exception is kept), or it returns a port on which the listed events arrive,
  in the order listed.
\<close>

datatype connection = ConnectThrows string | Connected "(nat \<times> port_event) list"

text \<open>A promise at the end of time: never settled, or settled at a time with a value or
  with the message of the \<open>Error\<close> it was rejected with.\<close>

datatype 'a promise = Pending | Resolved nat 'a | Rejected nat string

text \<open>What the tests observe of the platform: how often \<open>connectNative\<close> was called and
  which messages were posted.\<close>

record world =
  connects :: nat
  posted :: "native_message list"

subsection \<open>sendMessage\<close>

text \<open>
  The local state of one \<open>sendMessage\<close> call: whether the 60 second timer is still armed,
  whether the port still delivers events (it stops once either side has disconnected),
  and the promise under construction. \<open>resolve\<close> and \<open>reject\<close> act on a pending promise
  only.
\<close>

record port_state =
  timer_armed :: bool
  port_open :: bool
  settled :: "response promise"

definition settle :: "response promise \<Rightarrow> port_state \<Rightarrow> port_state" where
  "settle p ps = (if settled ps = Pending then ps\<lparr>settled := p\<rparr> else ps)"

text \<open>The \<open>setTimeout\<close> callback: \<open>port.disconnect(); reject(new Error('Native host
  response timeout'))\<close>, 60000 ms after the connection.\<close>

definition fire_timeout :: "port_state \<Rightarrow> port_state" where
  "fire_timeout ps =
     settle (Rejected 60000 ''Native host response timeout'')
       (ps\<lparr>timer_armed := False, port_open := False\<rparr>)"

text \<open>The \<open>port.onMessage\<close> listener: \<open>clearTimeout; port.disconnect(); resolve(response)\<close>.\<close>

definition on_message :: "nat \<Rightarrow> response \<Rightarrow> port_state \<Rightarrow> port_state" where
  "on_message t r ps =
     settle (Resolved t r) (ps\<lparr>timer_armed := False, port_open := False\<rparr>)"

text \<open>The \<open>port.onDisconnect\<close> listener: \<open>clearTimeout\<close>, then \<open>reject\<close> when
  \<open>lastError\<close> is set, and only a log line when it is not.\<close>

definition on_disconnect :: "nat \<Rightarrow> string option \<Rightarrow> port_state \<Rightarrow> port_state" where
  "on_disconnect t err ps =
     (let ps' = ps\<lparr>timer_armed := False, port_open := False\<rparr> in
      case err of
        Some m \<Rightarrow> settle (Rejected t (''Native host error: '' @ m)) ps'
      | None \<Rightarrow> ps')"

definition on_event :: "nat \<Rightarrow> port_event \<Rightarrow> port_state \<Rightarrow> port_state" where
  "on_event t ev ps =
     (case ev of OnMessage r \<Rightarrow> on_message t r ps | OnDisconnect err \<Rightarrow> on_disconnect t err ps)"

text \<open>
  The event loop of one connection. An armed timer runs before any event due at 60000 ms
  or later; an event on a port that no longer delivers is dropped; when the events are
  exhausted an armed timer still fires.
\<close>

fun deliver :: "(nat \<times> port_event) list \<Rightarrow> port_state \<Rightarrow> port_state" where
  "deliver [] ps = (if timer_armed ps then fire_timeout ps else ps)"
| "deliver ((t, ev) # evs) ps =
     (let ps1 = (if timer_armed ps \<and> 60000 \<le> t then fire_timeout ps else ps) in
      if port_open ps1 then deliver evs (on_event t ev ps1) else deliver evs ps1)"

definition fresh_port :: port_state where
  "fresh_port = \<lparr>timer_armed = True, port_open = True, settled = Pending\<rparr>"

text \<open>
  \<open>sendMessage\<close>: a throwing \<open>connectNative\<close> rejects at once and posts nothing; otherwise
  the timer is armed, the listeners are installed, the message is posted and the promise
  is whatever the event loop makes of it.
\<close>

definition sendMessage :: "native_message \<Rightarrow> connection \<Rightarrow> world \<Rightarrow> response promise \<times> world" where
  "sendMessage msg conn w =
     (case conn of
        ConnectThrows e \<Rightarrow>
          (Rejected 0 (''Failed to connect to native host: '' @ e),
           w\<lparr>connects := connects w + 1\<rparr>)
      | Connected evs \<Rightarrow>
          (settled (deliver evs fresh_port),
           w\<lparr>connects := connects w + 1, posted := posted w @ [msg]\<rparr>))"

subsection \<open>The recorder object\<close>

text \<open>The two private fields of \<open>NativeAudioRecorder\<close>; \<open>port\<close> is declared and never
  assigned, \<open>_isAvailable\<close> is the availability cache (\<open>null\<close> is \<open>None\<close>).\<close>

record recorder =
  port :: "unit option"
  isAvailable_cache :: "bool option"

definition new_recorder :: recorder where
  "new_recorder = \<lparr>port = None, isAvailable_cache = None\<rparr>"

text \<open>The getter \<open>isAvailable\<close>: \<open>this._isAvailable === true\<close>.\<close>

definition isAvailable :: "recorder \<Rightarrow> bool" where
  "isAvailable r = (isAvailable_cache r = Some True)"

subsection \<open>recordAudio\<close>

definition record_timeout :: "int \<Rightarrow> int" where
  "record_timeout durationMs = min (durationMs + 5000) 30000"

definition timeout_result :: response where
  "timeout_result =
     \<lparr>success = False, audioBase64 = None, format = None,
      error = Some ''Recording timed out'', audioSystem = None, message = None\<rparr>"

text \<open>
  \<open>Promise.race([recordingPromise, timeoutPromise])\<close>, the timer of \<open>timeoutPromise\<close>
  firing at \<open>T\<close>: the recording promise wins when it has settled by then (a promise
  already rejected when the race starts is seen before any timer), otherwise the race
  resolves at \<open>T\<close> with the timeout result.
\<close>

definition promise_race :: "response promise \<Rightarrow> nat \<Rightarrow> response promise" where
  "promise_race p T =
     (case p of
        Pending \<Rightarrow> Resolved T timeout_result
      | Resolved t r \<Rightarrow> if t \<le> T then Resolved t r else Resolved T timeout_result
      | Rejected t e \<Rightarrow> if t \<le> T then Rejected t e else Resolved T timeout_result)"

text \<open>\<open>recordAudio\<close>. \<open>setTimeout\<close> treats a negative delay as 0, hence \<open>nat\<close>. The
  recorder object is read by nothing here and returned unchanged.\<close>

definition recordAudio ::
  "int \<Rightarrow> bool \<Rightarrow> connection \<Rightarrow> recorder \<Rightarrow> world \<Rightarrow> response promise \<times> recorder \<times> world" where
  "recordAudio durationMs encodeMp3 conn r w =
     (let timeout = record_timeout durationMs;
          (recordingPromise, w') = sendMessage (Record durationMs encodeMp3) conn w
      in (promise_race recordingPromise (nat timeout), r, w'))"

subsection \<open>ping and checkAvailability\<close>

definition ping :: "connection \<Rightarrow> world \<Rightarrow> response promise \<times> world" where
  "ping conn w = sendMessage Ping conn w"

text \<open>
  \<open>checkAvailability\<close> is an \<open>async\<close> function with one suspension point, the \<open>await\<close> of
  \<open>this.ping()\<close>. Up to there it runs synchronously: it returns the cached value when
  \<open>_isAvailable\<close> is not \<open>null\<close>, and otherwise opens the connection and suspends on the
  promise. Other code of the same process can run between the two halves.
\<close>

datatype check_step = Done bool | Awaiting "response promise"

definition checkAvailability_begin ::
  "connection \<Rightarrow> recorder \<Rightarrow> world \<Rightarrow> check_step \<times> recorder \<times> world" where
  "checkAvailability_begin conn r w =
     (case isAvailable_cache r of
        Some b \<Rightarrow> (Done b, r, w)
      | None \<Rightarrow> (let (p, w') = ping conn w in (Awaiting p, r, w')))"

text \<open>
  The continuation after the \<open>await\<close>: a response stores \<open>response.success\<close>, a rejection
  is caught and stores \<open>false\<close>; the call returns what it stored. A promise that never
  settles never resumes the call: no result (\<open>None\<close>) and no store.
\<close>

definition checkAvailability_resume ::
  "response promise \<Rightarrow> recorder \<Rightarrow> bool option \<times> recorder" where
  "checkAvailability_resume p r =
     (case p of
        Resolved t resp \<Rightarrow> (Some (success resp), r\<lparr>isAvailable_cache := Some (success resp)\<rparr>)
      | Rejected t e \<Rightarrow> (Some False, r\<lparr>isAvailable_cache := Some False\<rparr>)
      | Pending \<Rightarrow> (None, r))"

text \<open>One call run to its end with nothing else scheduled in between.\<close>

definition checkAvailability ::
  "connection \<Rightarrow> recorder \<Rightarrow> world \<Rightarrow> bool option \<times> recorder \<times> world" where
  "checkAvailability conn r w =
     (case checkAvailability_begin conn r w of
        (Done b, r', w') \<Rightarrow> (Some b, r', w')
      | (Awaiting p, r', w') \<Rightarrow>
          (let (res, r'') = checkAvailability_resume p r' in (res, r'', w')))"

text \<open>Calls made one after the other, each run to its end before the next starts; the
  list gives the environment's behaviour for the connection each call would open.\<close>

fun checkAvailability_seq ::
  "connection list \<Rightarrow> recorder \<Rightarrow> world \<Rightarrow> bool option list \<times> recorder \<times> world" where
  "checkAvailability_seq [] r w = ([], r, w)"
| "checkAvailability_seq (conn # conns) r w =
     (case checkAvailability conn r w of
        (res, r', w') \<Rightarrow>
          (case checkAvailability_seq conns r' w' of
             (ress, r'', w'') \<Rightarrow> (res # ress, r'', w'')))"

subsection \<open>The module-level singleton\<close>

text \<open>
  Objects live in a store addressed by references; \<open>nativeAudioRecorder\<close> is the module
  variable, \<open>null\<close> at load. \<open>new NativeAudioRecorder()\<close> allocates at \<open>next_ref\<close>.
\<close>

record module_state =
  heap :: "nat \<Rightarrow> recorder option"
  next_ref :: nat
  nativeAudioRecorder :: "nat option"

definition module_loaded :: module_state where
  "module_loaded = \<lparr>heap = (\<lambda>_. None), next_ref = 0, nativeAudioRecorder = None\<rparr>"

definition getNativeAudioRecorder :: "module_state \<Rightarrow> nat \<times> module_state" where
  "getNativeAudioRecorder m =
     (case nativeAudioRecorder m of
        Some ref \<Rightarrow> (ref, m)
      | None \<Rightarrow>
          (let ref = next_ref m in
           (ref, m\<lparr>heap := (heap m)(ref \<mapsto> new_recorder),
                   next_ref := ref + 1,
                   nativeAudioRecorder := Some ref\<rparr>)))"

text \<open>\<open>n\<close> successive calls, the references they return and the state they leave.\<close>

fun getNativeAudioRecorder_calls :: "nat \<Rightarrow> module_state \<Rightarrow> nat list \<times> module_state" where
  "getNativeAudioRecorder_calls 0 m = ([], m)"
| "getNativeAudioRecorder_calls (Suc n) m =
     (case getNativeAudioRecorder m of
        (ref, m') \<Rightarrow>
          (case getNativeAudioRecorder_calls n m' of (refs, m'') \<Rightarrow> (ref # refs, m'')))"

text \<open>A method call through a reference: \<open>ref.checkAvailability()\<close> run to its end,
  the object updated in place. A reference to no object leaves everything as it is.\<close>

definition checkAvailability_at ::
  "nat \<Rightarrow> connection \<Rightarrow> module_state \<Rightarrow> world \<Rightarrow> bool option \<times> module_state \<times> world" where
  "checkAvailability_at ref conn m w =
     (case heap m ref of
        None \<Rightarrow> (None, m, w)
      | Some r \<Rightarrow>
          (case checkAvailability conn r w of
             (res, r', w') \<Rightarrow> (res, m\<lparr>heap := (heap m)(ref \<mapsto> r')\<rparr>, w')))"

text \<open>The getter read through a reference.\<close>

definition isAvailable_at :: "nat \<Rightarrow> module_state \<Rightarrow> bool" where
  "isAvailable_at ref m = (case heap m ref of None \<Rightarrow> False | Some r \<Rightarrow> isAvailable r)"

section \<open>Command dispatch (extension/src/entrypoints/background.ts)\<close>

text \<open>
  What the listener reads of an inbound \<open>Command<Message>\<close>: \<open>request.sender\<close> and
  \<open>request.message.command\<close>. The type \<open>Command\<close> gives every request a message, so
  reading its command cannot fail.
\<close>

record request =
  req_sender :: string
  req_command :: string

text \<open>\<open>handler.sender\<close> is a string or an array of strings (\<open>typeof\<close> tells them apart);
  \<open>handler.command\<close> is a string or \<open>null\<close>.\<close>

datatype sender_spec = SenderString string | SenderArray "string list"

text \<open>What \<open>handler.handle(request, sender, sendResponse)\<close> does as far as the listener
  can tell: it returns \<open>true\<close>, returns anything else, or throws. Its effects on the rest of
  the background script (the tab registry, the reply channel) are a state transformer.\<close>

datatype handle_result = ReturnsTrue | ReturnsOther | Throws string

record 'st handler =
  sender :: sender_spec
  command :: "string option"
  handle :: "request \<Rightarrow> 'st \<Rightarrow> handle_result \<times> 'st"

definition sender_matches :: "'st handler \<Rightarrow> request \<Rightarrow> bool" where
  "sender_matches h req =
     (case sender h of
        SenderString s \<Rightarrow> s = req_sender req
      | SenderArray ss \<Rightarrow> req_sender req \<in> set ss)"

definition command_matches :: "'st handler \<Rightarrow> request \<Rightarrow> bool" where
  "command_matches h req =
     (case command h of None \<Rightarrow> True | Some c \<Rightarrow> c = req_command req)"

text \<open>How one run of the listener ends: \<open>return true\<close>, falling off the end (after the
  \<open>break\<close> or after the loop) which returns \<open>undefined\<close>, or an exception leaving it.\<close>

datatype listener_outcome = ListenerTrue | ListenerUndefined | ListenerThrew string

text \<open>
  The \<open>for (const handler of handlers)\<close> loop from position \<open>i\<close> on. The trace records
  the position of every handler whose \<open>handle\<close> is called, in call order.
\<close>

fun listener_from ::
  "nat \<Rightarrow> 'st handler list \<Rightarrow> request \<Rightarrow> nat list \<Rightarrow> 'st \<Rightarrow> listener_outcome \<times> nat list \<times> 'st" where
  "listener_from i [] req trace s = (ListenerUndefined, trace, s)"
| "listener_from i (h # hs) req trace s =
     (if sender_matches h req then
        (if command_matches h req then
           (case handle h req s of
              (ReturnsTrue, s') \<Rightarrow> (ListenerTrue, trace @ [i], s')
            | (ReturnsOther, s') \<Rightarrow> (ListenerUndefined, trace @ [i], s')
            | (Throws e, s') \<Rightarrow> (ListenerThrew e, trace @ [i], s'))
         else listener_from (Suc i) hs req trace s)
      else listener_from (Suc i) hs req trace s)"

definition listener ::
  "'st handler list \<Rightarrow> request \<Rightarrow> 'st \<Rightarrow> listener_outcome \<times> nat list \<times> 'st" where
  "listener handlers req s = listener_from 0 handlers req [] s"

text \<open>
  The dispatch rule in the specification's words: a registration matches when its
  accepted origins contain the envelope's origin and its accepted command is the wildcard
  or the envelope's command name; the first match in list order is the one chosen.
\<close>

definition registration_matches :: "'st handler \<Rightarrow> request \<Rightarrow> bool" where
  "registration_matches h req =
     ((case sender h of SenderString s \<Rightarrow> req_sender req = s
                      | SenderArray ss \<Rightarrow> req_sender req \<in> set ss)
      \<and> (command h = None \<or> command h = Some (req_command req)))"

fun first_match :: "nat \<Rightarrow> 'st handler list \<Rightarrow> request \<Rightarrow> (nat \<times> 'st handler) option" where
  "first_match i [] req = None"
| "first_match i (h # hs) req =
     (if registration_matches h req then Some (i, h) else first_match (Suc i) hs req)"

definition outcome_of :: "handle_result \<Rightarrow> listener_outcome" where
  "outcome_of res =
     (case res of ReturnsTrue \<Rightarrow> ListenerTrue
                | ReturnsOther \<Rightarrow> ListenerUndefined
                | Throws e \<Rightarrow> ListenerThrew e)"

section \<open>Sidebar service (extension/src/services/sidebar-service.ts)\<close>

text \<open>
  The two calls of the platform's \<open>browser.sidebarAction\<close> that \<open>toggle\<close> and \<open>isOpen\<close>
  use, acting on the browser's state \<open>'w\<close>; a rejected promise is \<open>Inl\<close> with the error's
  message. \<open>isFirefoxBuild\<close> is a constant of \<open>./build-flags\<close>, a parameter here.
\<close>

record 'w sidebarAction =
  sidebarAction_toggle :: "'w \<Rightarrow> (string + unit) \<times> 'w"
  sidebarAction_isOpen :: "'w \<Rightarrow> (string + bool) \<times> 'w"

definition toggle :: "bool \<Rightarrow> 'w sidebarAction \<Rightarrow> 'w \<Rightarrow> (string + unit) \<times> 'w" where
  "toggle isFirefoxBuild api w =
     (if isFirefoxBuild then sidebarAction_toggle api w
      else (Inl ''Chrome toggle should be handled by toggle-side-panel-handler'', w))"

definition isOpen :: "bool \<Rightarrow> 'w sidebarAction \<Rightarrow> 'w \<Rightarrow> (string + bool) \<times> 'w" where
  "isOpen isFirefoxBuild api w =
     (if isFirefoxBuild then sidebarAction_isOpen api w
      else (Inr False, w))"

section \<open>Vocabulary of the properties\<close>

text \<open>When a promise settles, if it ever does.\<close>

definition settle_time :: "'a promise \<Rightarrow> nat option" where
  "settle_time p = (case p of Pending \<Rightarrow> None | Resolved t x \<Rightarrow> Some t | Rejected t e \<Rightarrow> Some t)"

text \<open>A timer due at \<open>T\<close> fires before the promise settles: the promise never settles, or
  settles later than \<open>T\<close>.\<close>

definition timer_fires_first :: "nat \<Rightarrow> 'a promise \<Rightarrow> bool" where
  "timer_fires_first T p = (case settle_time p of None \<Rightarrow> True | Some t \<Rightarrow> T < t)"

section \<open>Scenarios\<close>

text \<open>The platform at start: no connection made, nothing posted.\<close>

definition world0 :: world where
  "world0 = \<lparr>connects = 0, posted = []\<rparr>"

text \<open>Replies of the native host: a recording, a ping answered by a host that found no
  audio system, and a ping answered by a host on PipeWire.\<close>

definition wav_reply :: response where
  "wav_reply =
     \<lparr>success = True, audioBase64 = Some ''UklGRiQAAABXQVZF'', format = Some ''wav'',
      error = None, audioSystem = None, message = None\<rparr>"

definition no_audio_reply :: response where
  "no_audio_reply =
     \<lparr>success = False, audioBase64 = None, format = None,
      error = Some ''No supported audio system detected'', audioSystem = None,
      message = None\<rparr>"

definition pong_reply :: response where
  "pong_reply =
     \<lparr>success = True, audioBase64 = None, format = None, error = None,
      audioSystem = Some ''pipewire'', message = Some ''pong''\<rparr>"

text \<open>A host that answers the ping after 40 ms with \<open>no_audio_reply\<close>, and the recorder
  and platform state once \<open>checkAvailability\<close> has run against it on a new recorder.\<close>

definition no_audio_host :: connection where
  "no_audio_host = Connected [(40, OnMessage no_audio_reply)]"

definition unavailable_recorder :: recorder where
  "unavailable_recorder = fst (snd (checkAvailability no_audio_host new_recorder world0))"

definition unavailable_world :: world where
  "unavailable_world = snd (snd (checkAvailability no_audio_host new_recorder world0))"

text \<open>A host that delivers a recording 5200 ms after the connection, one that delivers it
  after 31000 ms, and one that exits, with no error reported, before it has replied.\<close>

definition recording_host :: connection where
  "recording_host = Connected [(5200, OnMessage wav_reply)]"

definition slow_host :: connection where
  "slow_host = Connected [(31000, OnMessage wav_reply)]"

definition silent_exit_host :: connection where
  "silent_exit_host = Connected [(100, OnDisconnect None)]"

text \<open>Two \<open>checkAvailability\<close> calls started back to back on a new recorder, the second
  before the first has resumed: the state after the first and after the second start.\<close>

definition first_started :: "check_step \<times> recorder \<times> world" where
  "first_started = checkAvailability_begin no_audio_host new_recorder world0"

definition second_started :: "check_step \<times> recorder \<times> world" where
  "second_started =
     checkAvailability_begin no_audio_host (fst (snd first_started)) (snd (snd first_started))"

text \<open>Handlers over a counter as state. \<open>heartbeat_handler\<close> takes the command
  \<open>heartbeat\<close> from the video script; \<open>forwarding_handler\<close> takes any command from the
  video script or the popup and replies asynchronously; \<open>catch_all_handler\<close> overlaps
  with it; \<open>failing_handler\<close> throws.\<close>

definition heartbeat_handler :: "nat handler" where
  "heartbeat_handler =
     \<lparr>sender = SenderString ''asbplayer-video'', command = Some ''heartbeat'',
      handle = (\<lambda>req s. (ReturnsOther, s + 1))\<rparr>"

definition forwarding_handler :: "nat handler" where
  "forwarding_handler =
     \<lparr>sender = SenderArray [''asbplayer-video'', ''asbplayer-popup''], command = None,
      handle = (\<lambda>req s. (ReturnsTrue, s + 10))\<rparr>"

definition catch_all_handler :: "nat handler" where
  "catch_all_handler =
     \<lparr>sender = SenderString ''asbplayer-popup'', command = None,
      handle = (\<lambda>req s. (ReturnsOther, s + 100))\<rparr>"

definition failing_handler :: "nat handler" where
  "failing_handler =
     \<lparr>sender = SenderString ''asbplayer-video'', command = Some ''record-media-and-forward-subtitle'',
      handle = (\<lambda>req s. (Throws ''TypeError: tab is undefined'', s + 1000))\<rparr>"

definition popup_request :: request where
  "popup_request = \<lparr>req_sender = ''asbplayer-popup'', req_command = ''settings-updated''\<rparr>"

definition record_request :: request where
  "record_request =
     \<lparr>req_sender = ''asbplayer-video'', req_command = ''record-media-and-forward-subtitle''\<rparr>"

text \<open>A browser whose only state is whether the sidebar is open.\<close>

definition bool_sidebar :: "bool sidebarAction" where
  "bool_sidebar =
     \<lparr>sidebarAction_toggle = (\<lambda>opened. (Inr (), \<not> opened)),
      sidebarAction_isOpen = (\<lambda>opened. (Inr opened, opened))\<rparr>"

section \<open>Interleaved availability checks\<close>

text \<open>
  Several \<open>checkAvailability\<close> calls on one recorder, interleaved at their \<open>await\<close>. The
  state holds the recorder, the platform, the promises of the calls that are suspended
  (in the order they were started) and the booleans returned so far (in the order the
  calls completed).
\<close>

record sched_state =
  sch_recorder :: recorder
  sch_world :: world
  awaiting :: "response promise list"
  returned :: "bool list"

text \<open>What can happen next: a new call is started, against a connection that behaves
  as given, or the suspended call at a position of the list is resumed.\<close>

datatype sched_event = StartCheck connection | ResumeCheck nat

fun is_start :: "sched_event \<Rightarrow> bool" where
  "is_start (StartCheck conn) = True"
| "is_start (ResumeCheck i) = False"

text \<open>Starting a call runs it up to its \<open>await\<close>: it returns at once from the cache, or
  it has opened its connection and joins the suspended calls.\<close>

definition start_check :: "connection \<Rightarrow> sched_state \<Rightarrow> sched_state" where
  "start_check conn st =
     (case checkAvailability_begin conn (sch_recorder st) (sch_world st) of
        (Done b, r', w') \<Rightarrow>
          st\<lparr>sch_recorder := r', sch_world := w', returned := returned st @ [b]\<rparr>
      | (Awaiting p, r', w') \<Rightarrow>
          st\<lparr>sch_recorder := r', sch_world := w', awaiting := awaiting st @ [p]\<rparr>)"

text \<open>Resuming a suspended call runs its continuation; a call whose promise never
  settles is never resumed, and a position outside the list resumes nothing.\<close>

definition resume_check :: "nat \<Rightarrow> sched_state \<Rightarrow> sched_state" where
  "resume_check i st =
     (if i < length (awaiting st) then
        (case checkAvailability_resume (awaiting st ! i) (sch_recorder st) of
           (Some b, r') \<Rightarrow>
             st\<lparr>sch_recorder := r',
                awaiting := take i (awaiting st) @ drop (Suc i) (awaiting st),
                returned := returned st @ [b]\<rparr>
         | (None, r') \<Rightarrow> st)
      else st)"

fun sched_step :: "sched_event \<Rightarrow> sched_state \<Rightarrow> sched_state" where
  "sched_step (StartCheck conn) st = start_check conn st"
| "sched_step (ResumeCheck i) st = resume_check i st"

fun run_sched :: "sched_event list \<Rightarrow> sched_state \<Rightarrow> sched_state" where
  "run_sched [] st = st"
| "run_sched (ev # evs) st = run_sched evs (sched_step ev st)"

text \<open>A new recorder on a platform on which nothing has happened yet.\<close>

definition sched_init :: sched_state where
  "sched_init =
     \<lparr>sch_recorder = new_recorder, sch_world = \<lparr>connects = 0, posted = []\<rparr>,
      awaiting = [], returned = []\<rparr>"

text \<open>A host on PipeWire that answers the ping after 15 ms.\<close>

definition pong_host :: connection where
  "pong_host = Connected [(15, OnMessage pong_reply)]"

section \<open>Properties of the native audio recorder\<close>

subsection \<open>The promise of one connection\<close>

lemma deliver_closed:
  "\<not> timer_armed ps \<Longrightarrow> \<not> port_open ps \<Longrightarrow> deliver evs ps = ps"
  by (induction evs arbitrary: ps) auto

lemma fire_timeout_closed:
  "\<not> timer_armed (fire_timeout ps) \<and> \<not> port_open (fire_timeout ps)"
  by (simp add: fire_timeout_def settle_def)

lemma on_event_closed:
  "\<not> timer_armed (on_event t ev ps) \<and> \<not> port_open (on_event t ev ps)"
  by (cases ev)
     (auto simp: on_event_def on_message_def on_disconnect_def settle_def Let_def
           split: option.splits)

lemma deliver_fresh_Nil:
  "settled (deliver [] fresh_port) = Rejected 60000 ''Native host response timeout''"
  by (simp add: fresh_port_def fire_timeout_def settle_def)

lemma deliver_fresh_Cons:
  "settled (deliver ((t, ev) # evs) fresh_port) =
     (if 60000 \<le> t then Rejected 60000 ''Native host response timeout''
      else case ev of
             OnMessage resp \<Rightarrow> Resolved t resp
           | OnDisconnect (Some m) \<Rightarrow> Rejected t (''Native host error: '' @ m)
           | OnDisconnect None \<Rightarrow> Pending)"
proof (cases "60000 \<le> t")
  case True
  have "deliver ((t, ev) # evs) fresh_port = deliver evs (fire_timeout fresh_port)"
    using True by (simp add: fresh_port_def fire_timeout_def settle_def)
  also have "\<dots> = fire_timeout fresh_port"
    using fire_timeout_closed by (intro deliver_closed) auto
  finally show ?thesis
    using True by (simp add: fresh_port_def fire_timeout_def settle_def)
next
  case False
  have "deliver ((t, ev) # evs) fresh_port = deliver evs (on_event t ev fresh_port)"
    using False by (simp add: fresh_port_def)
  also have "\<dots> = on_event t ev fresh_port"
    using on_event_closed by (intro deliver_closed) auto
  finally show ?thesis
    using False
    by (cases ev)
       (auto simp: fresh_port_def on_event_def on_message_def on_disconnect_def settle_def Let_def
             split: option.splits)
qed


lemma sendMessage_promise:
  "fst (sendMessage msg conn w) =
     (case conn of
        ConnectThrows x \<Rightarrow> Rejected 0 (''Failed to connect to native host: '' @ x)
      | Connected [] \<Rightarrow> Rejected 60000 ''Native host response timeout''
      | Connected ((t, ev) # evs) \<Rightarrow>
          (if 60000 \<le> t then Rejected 60000 ''Native host response timeout''
           else case ev of
                  OnMessage resp \<Rightarrow> Resolved t resp
                | OnDisconnect (Some m) \<Rightarrow> Rejected t (''Native host error: '' @ m)
                | OnDisconnect None \<Rightarrow> Pending))"
proof (cases conn)
  case (ConnectThrows x)
  then show ?thesis by (simp add: sendMessage_def)
next
  case (Connected evs)
  show ?thesis
  proof (cases evs)
    case Nil
    with Connected show ?thesis
      by (simp add: sendMessage_def deliver_fresh_Nil del: deliver.simps)
  next
    case (Cons tev rest)
    obtain t ev where "tev = (t, ev)" by (cases tev)
    with Connected Cons show ?thesis
      by (simp add: sendMessage_def deliver_fresh_Cons del: deliver.simps)
  qed
qed

lemma sendMessage_connects:
  "connects (snd (sendMessage msg conn w)) = connects w + 1"
  by (simp add: sendMessage_def split: connection.splits)

lemma recordAudio_promise:
  "fst (recordAudio d e conn r w) =
     promise_race (fst (sendMessage (Record d e) conn w)) (nat (record_timeout d))"
  by (simp add: recordAudio_def Let_def split: prod.splits)

lemma recordAudio_state:
  "snd (recordAudio d e conn r w) = (r, snd (sendMessage (Record d e) conn w))"
  by (simp add: recordAudio_def Let_def split: prod.splits)

lemma record_timeout_le: "nat (record_timeout d) \<le> 30000"
  by (simp add: record_timeout_def)

subsection \<open>The timeout race of recordAudio\<close>

text \<open>
  Claim C1. For every record call with duration \<open>durationMs\<close> the effective timeout is
  \<open>min (durationMs + 5000) 30000\<close> milliseconds, and it is raced against the record call
  itself, for which one connection is made. When the race timer fires before the backend
  call settles (or the backend call never settles), the caller receives exactly
  \<open>{success: false, error: 'Recording timed out'}\<close>, at the time the timer fires;
  otherwise the caller receives what the backend call settled with. So a reply of the
  host that arrives no later than the timer is the result of the call, and nothing that
  arrives after the timer is. The witness is the specification's example: a duration of
  28000 ms gives a timeout of 30000 ms, and a host that replies after 31000 ms yields the
  timeout result at 30000 ms, while a reply after 5200 ms is returned as it is.
\<close>

theorem recordAudio_timeout_race:
  "record_timeout durationMs = min (durationMs + 5000) 30000 \<and>
   fst (recordAudio durationMs encodeMp3 conn r w) =
     (if timer_fires_first (nat (min (durationMs + 5000) 30000))
           (fst (sendMessage (Record durationMs encodeMp3) conn w))
      then Resolved (nat (min (durationMs + 5000) 30000))
             \<lparr>success = False, audioBase64 = None, format = None,
              error = Some ''Recording timed out'', audioSystem = None, message = None\<rparr>
      else fst (sendMessage (Record durationMs encodeMp3) conn w)) \<and>
   snd (recordAudio durationMs encodeMp3 conn r w) =
     (r, snd (sendMessage (Record durationMs encodeMp3) conn w)) \<and>
   connects (snd (snd (recordAudio durationMs encodeMp3 conn r w))) = connects w + 1 \<and>
   (\<forall>t resp evs. t \<le> nat (min (durationMs + 5000) 30000) \<longrightarrow>
      fst (recordAudio durationMs encodeMp3 (Connected ((t, OnMessage resp) # evs)) r w) =
        Resolved t resp) \<and>
   (\<forall>t ev evs. nat (min (durationMs + 5000) 30000) < t \<longrightarrow>
      fst (recordAudio durationMs encodeMp3 (Connected ((t, ev) # evs)) r w) =
        Resolved (nat (min (durationMs + 5000) 30000))
          \<lparr>success = False, audioBase64 = None, format = None,
           error = Some ''Recording timed out'', audioSystem = None, message = None\<rparr>)"
proof -
  let ?T = "nat (min (durationMs + 5000) 30000)"
  have T: "?T \<le> 30000" by simp
  have race: "fst (recordAudio durationMs encodeMp3 conn r w) =
     (if timer_fires_first ?T (fst (sendMessage (Record durationMs encodeMp3) conn w))
      then Resolved ?T
             \<lparr>success = False, audioBase64 = None, format = None,
              error = Some ''Recording timed out'', audioSystem = None, message = None\<rparr>
      else fst (sendMessage (Record durationMs encodeMp3) conn w))"
    by (cases "fst (sendMessage (Record durationMs encodeMp3) conn w)")
       (auto simp: recordAudio_promise record_timeout_def promise_race_def timeout_result_def
                   timer_fires_first_def settle_time_def)
  have reply: "\<forall>t resp evs. t \<le> ?T \<longrightarrow>
      fst (recordAudio durationMs encodeMp3 (Connected ((t, OnMessage resp) # evs)) r w) =
        Resolved t resp"
    using T
    by (auto simp: recordAudio_promise sendMessage_promise record_timeout_def promise_race_def)
  have late: "\<forall>t ev evs. ?T < t \<longrightarrow>
      fst (recordAudio durationMs encodeMp3 (Connected ((t, ev) # evs)) r w) =
        Resolved ?T
          \<lparr>success = False, audioBase64 = None, format = None,
           error = Some ''Recording timed out'', audioSystem = None, message = None\<rparr>"
  proof (intro allI impI)
    fix t ev evs assume "?T < t"
    then show "fst (recordAudio durationMs encodeMp3 (Connected ((t, ev) # evs)) r w) =
        Resolved ?T
          \<lparr>success = False, audioBase64 = None, format = None,
           error = Some ''Recording timed out'', audioSystem = None, message = None\<rparr>"
      using T
      by (cases ev)
         (auto simp: recordAudio_promise sendMessage_promise record_timeout_def
                     promise_race_def timeout_result_def split: option.splits)
  qed
  have st: "snd (recordAudio durationMs encodeMp3 conn r w) =
     (r, snd (sendMessage (Record durationMs encodeMp3) conn w))"
    by (rule recordAudio_state)
  have cn: "connects (snd (snd (recordAudio durationMs encodeMp3 conn r w))) = connects w + 1"
    by (simp add: recordAudio_state sendMessage_connects)
  have df: "record_timeout durationMs = min (durationMs + 5000) 30000"
    by (simp add: record_timeout_def)
  from df race st cn reply late show ?thesis by - (intro conjI, assumption+)
qed

theorem recordAudio_timeout_race_witness:
  "record_timeout 28000 = 30000 \<and>
   (31000::nat) > nat (min (28000 + 5000) 30000) \<and>
   fst (recordAudio 28000 False slow_host new_recorder world0) =
     Resolved 30000
       \<lparr>success = False, audioBase64 = None, format = None,
        error = Some ''Recording timed out'', audioSystem = None, message = None\<rparr> \<and>
   (5200::nat) \<le> nat (min (28000 + 5000) 30000) \<and>
   fst (recordAudio 28000 False recording_host new_recorder world0) = Resolved 5200 wav_reply \<and>
   connects (snd (snd (recordAudio 28000 False slow_host new_recorder world0))) = 1"
proof -
  note inst = recordAudio_timeout_race [of 28000 False slow_host new_recorder world0]
  have d: "record_timeout 28000 = 30000"
    using inst [THEN conjunct1] by simp
  have lt: "(31000::nat) > nat (min (28000 + 5000) 30000)" by simp
  have le: "(5200::nat) \<le> nat (min (28000 + 5000) 30000)" by simp
  have late: "fst (recordAudio 28000 False slow_host new_recorder world0) =
     Resolved 30000
       \<lparr>success = False, audioBase64 = None, format = None,
        error = Some ''Recording timed out'', audioSystem = None, message = None\<rparr>"
    using inst [THEN conjunct2, THEN conjunct2, THEN conjunct2, THEN conjunct2, THEN conjunct2,
      rule_format, OF lt, of "OnMessage wav_reply" "[]"]
    by (simp add: slow_host_def)
  have early: "fst (recordAudio 28000 False recording_host new_recorder world0) =
     Resolved 5200 wav_reply"
    using inst [THEN conjunct2, THEN conjunct2, THEN conjunct2, THEN conjunct2, THEN conjunct1,
      rule_format, OF le, of wav_reply "[]"]
    by (simp add: recording_host_def)
  have cn: "connects (snd (snd (recordAudio 28000 False slow_host new_recorder world0))) = 1"
    using inst [THEN conjunct2, THEN conjunct2, THEN conjunct2, THEN conjunct1]
    by (simp add: world0_def)
  from d lt late le early cn show ?thesis by - (intro conjI, assumption+)
qed

lemma sendMessage_world:
  "snd (sendMessage msg conn w) =
     (case conn of
        ConnectThrows x \<Rightarrow> w\<lparr>connects := connects w + 1\<rparr>
      | Connected evs \<Rightarrow> w\<lparr>connects := connects w + 1, posted := posted w @ [msg]\<rparr>)"
  by (simp add: sendMessage_def split: connection.splits)

subsection \<open>The availability cache\<close>

lemma checkAvailability_begin_cached:
  "isAvailable_cache r = Some b \<Longrightarrow> checkAvailability_begin conn r w = (Done b, r, w)"
  by (simp add: checkAvailability_begin_def)

lemma checkAvailability_begin_probe:
  "isAvailable_cache r = None \<Longrightarrow>
     checkAvailability_begin conn r w =
       (Awaiting (fst (sendMessage Ping conn w)), r, snd (sendMessage Ping conn w))"
  by (simp add: checkAvailability_begin_def ping_def split: prod.splits)

lemma checkAvailability_cached:
  "isAvailable_cache r = Some b \<Longrightarrow> checkAvailability conn r w = (Some b, r, w)"
  by (simp add: checkAvailability_def checkAvailability_begin_cached)

lemma checkAvailability_completed:
  assumes "checkAvailability conn r w = (Some b, r', w')"
  shows "isAvailable_cache r' = Some b \<and> connects w' \<le> connects w + 1"
proof (cases "isAvailable_cache r")
  case None
  then show ?thesis
    using assms
    by (cases "fst (sendMessage Ping conn w)")
       (auto simp: checkAvailability_def checkAvailability_begin_probe
                   checkAvailability_resume_def sendMessage_connects)
next
  case (Some c)
  then show ?thesis
    using assms by (simp add: checkAvailability_cached)
qed

lemma checkAvailability_seq_cached:
  "isAvailable_cache r = Some b \<Longrightarrow>
     checkAvailability_seq conns r w = (replicate (length conns) (Some b), r, w)"
  by (induction conns) (simp_all add: checkAvailability_cached)

lemma start_check_empty:
  "isAvailable_cache (sch_recorder st) = None \<Longrightarrow>
     start_check conn st =
       st\<lparr>sch_world := snd (sendMessage Ping conn (sch_world st)),
          awaiting := awaiting st @ [fst (sendMessage Ping conn (sch_world st))]\<rparr>"
  by (simp add: start_check_def checkAvailability_begin_probe)

lemma start_check_cached:
  "isAvailable_cache (sch_recorder st) = Some b \<Longrightarrow>
     start_check conn st = st\<lparr>returned := returned st @ [b]\<rparr>"
  by (simp add: start_check_def checkAvailability_begin_cached)

lemma resume_check_cases:
  "resume_check i st = st \<or>
   (\<exists>b. resume_check i st =
      st\<lparr>sch_recorder := (sch_recorder st)\<lparr>isAvailable_cache := Some b\<rparr>,
         awaiting := take i (awaiting st) @ drop (Suc i) (awaiting st),
         returned := returned st @ [b]\<rparr>)"
  by (cases "awaiting st ! i")
     (auto simp: resume_check_def checkAvailability_resume_def)

text \<open>The cache is empty exactly as long as no call has returned, and afterwards it
  holds what the last call returned.\<close>

lemma sched_step_cache:
  assumes "isAvailable_cache (sch_recorder st) =
             (if returned st = [] then None else Some (last (returned st)))"
  shows "isAvailable_cache (sch_recorder (sched_step ev st)) =
           (if returned (sched_step ev st) = [] then None
            else Some (last (returned (sched_step ev st))))"
proof (cases ev)
  case (StartCheck conn)
  show ?thesis
  proof (cases "returned st = []")
    case True
    with assms have "isAvailable_cache (sch_recorder st) = None" by simp
    with True StartCheck show ?thesis by (simp add: start_check_empty)
  next
    case False
    with assms have "isAvailable_cache (sch_recorder st) = Some (last (returned st))" by simp
    with StartCheck show ?thesis by (simp add: start_check_cached)
  qed
next
  case (ResumeCheck i)
  from resume_check_cases [of i st] show ?thesis
  proof
    assume "resume_check i st = st"
    with ResumeCheck assms show ?thesis by simp
  next
    assume "\<exists>b. resume_check i st =
      st\<lparr>sch_recorder := (sch_recorder st)\<lparr>isAvailable_cache := Some b\<rparr>,
         awaiting := take i (awaiting st) @ drop (Suc i) (awaiting st),
         returned := returned st @ [b]\<rparr>"
    then obtain b where "resume_check i st =
      st\<lparr>sch_recorder := (sch_recorder st)\<lparr>isAvailable_cache := Some b\<rparr>,
         awaiting := take i (awaiting st) @ drop (Suc i) (awaiting st),
         returned := returned st @ [b]\<rparr>" ..
    with ResumeCheck show ?thesis by simp
  qed
qed

lemma sched_step_returned:
  "returned st \<noteq> [] \<Longrightarrow> returned (sched_step ev st) \<noteq> []"
proof (cases ev)
  case (StartCheck conn)
  assume "returned st \<noteq> []"
  then show ?thesis
    using StartCheck
    by (cases "checkAvailability_begin conn (sch_recorder st) (sch_world st)";
        cases "fst (checkAvailability_begin conn (sch_recorder st) (sch_world st))")
       (auto simp: start_check_def)
next
  case (ResumeCheck i)
  assume "returned st \<noteq> []"
  then show ?thesis
    using ResumeCheck resume_check_cases [of i st] by auto
qed

lemma sched_step_world:
  assumes "isAvailable_cache (sch_recorder st) = Some b"
  shows "sch_world (sched_step ev st) = sch_world st"
proof (cases ev)
  case (StartCheck conn)
  with assms show ?thesis by (simp add: start_check_cached)
next
  case (ResumeCheck i)
  then show ?thesis using resume_check_cases [of i st] by auto
qed

lemma run_sched_cache:
  "isAvailable_cache (sch_recorder st) =
     (if returned st = [] then None else Some (last (returned st))) \<Longrightarrow>
   isAvailable_cache (sch_recorder (run_sched evs st)) =
     (if returned (run_sched evs st) = [] then None
      else Some (last (returned (run_sched evs st))))"
proof (induction evs arbitrary: st)
  case Nil
  then show ?case by simp
next
  case (Cons ev evs)
  from Cons.prems have "isAvailable_cache (sch_recorder (sched_step ev st)) =
           (if returned (sched_step ev st) = [] then None
            else Some (last (returned (sched_step ev st))))"
    by (rule sched_step_cache)
  then show ?case using Cons.IH by simp
qed

lemma run_sched_world:
  "isAvailable_cache (sch_recorder st) =
     (if returned st = [] then None else Some (last (returned st))) \<Longrightarrow>
   returned st \<noteq> [] \<Longrightarrow> sch_world (run_sched evs st) = sch_world st"
proof (induction evs arbitrary: st)
  case Nil
  then show ?case by simp
next
  case (Cons ev evs)
  have c: "isAvailable_cache (sch_recorder (sched_step ev st)) =
           (if returned (sched_step ev st) = [] then None
            else Some (last (returned (sched_step ev st))))"
    using Cons.prems(1) by (rule sched_step_cache)
  have r: "returned (sched_step ev st) \<noteq> []"
    using Cons.prems(2) by (rule sched_step_returned)
  have "isAvailable_cache (sch_recorder st) = Some (last (returned st))"
    using Cons.prems by simp
  then have w: "sch_world (sched_step ev st) = sch_world st"
    by (rule sched_step_world)
  from Cons.IH [OF c r] w show ?case by simp
qed

lemma run_sched_probes:
  "isAvailable_cache (sch_recorder st) =
     (if returned st = [] then None else Some (last (returned st))) \<Longrightarrow>
   returned (run_sched evs st) = [] \<Longrightarrow>
   returned st = [] \<and>
   connects (sch_world (run_sched evs st)) = connects (sch_world st) + length (filter is_start evs)"
proof (induction evs arbitrary: st)
  case Nil
  then show ?case by simp
next
  case (Cons ev evs)
  have c: "isAvailable_cache (sch_recorder (sched_step ev st)) =
           (if returned (sched_step ev st) = [] then None
            else Some (last (returned (sched_step ev st))))"
    using Cons.prems(1) by (rule sched_step_cache)
  from Cons.prems(2) have e: "returned (run_sched evs (sched_step ev st)) = []" by simp
  from Cons.IH [OF c e]
  have r1: "returned (sched_step ev st) = []"
    and n1: "connects (sch_world (run_sched evs (sched_step ev st))) =
             connects (sch_world (sched_step ev st)) + length (filter is_start evs)"
    by simp_all
  have r0: "returned st = []"
    using r1 sched_step_returned [of st ev] by blast
  with Cons.prems(1) have empty: "isAvailable_cache (sch_recorder st) = None" by simp
  have "connects (sch_world (sched_step ev st)) =
          connects (sch_world st) + (if is_start ev then 1 else 0)"
  proof (cases ev)
    case (StartCheck conn)
    with empty show ?thesis by (simp add: start_check_empty sendMessage_connects)
  next
    case (ResumeCheck i)
    then show ?thesis using resume_check_cases [of i st] by auto
  qed
  with n1 r0 show ?case by simp
qed

lemma sched_init_cache:
  "isAvailable_cache (sch_recorder sched_init) =
     (if returned sched_init = [] then None else Some (last (returned sched_init)))"
  by (simp add: sched_init_def new_recorder_def)

text \<open>
  Claim C5, as amended. After any interleaving of \<open>checkAvailability\<close> calls on a new
  recorder: as long as no call has completed, the cache is empty, every call started so
  far has opened its own connection, and the next call started opens one more; once a
  call has completed, the cache holds the boolean the most recently completed call
  returned, a call started now returns that boolean at once with the recorder and the
  platform unchanged, and whatever is started or resumed from then on, no connection is
  made and no message posted any more. In particular, for calls made one after the
  other, once one has completed all later ones return its boolean, and it made at most
  one connection itself.
\<close>

theorem checkAvailability_cache_under_interleaving:
  assumes "st = run_sched evs sched_init"
  shows "(if returned st = []
          then isAvailable_cache (sch_recorder st) = None \<and>
               connects (sch_world st) = length (filter is_start evs) \<and>
               connects (sch_world (start_check conn st)) = connects (sch_world st) + 1 \<and>
               returned (start_check conn st) = []
          else isAvailable_cache (sch_recorder st) = Some (last (returned st)) \<and>
               start_check conn st = st\<lparr>returned := returned st @ [last (returned st)]\<rparr> \<and>
               sch_world (run_sched evs' st) = sch_world st) \<and>
         (\<forall>c r w b r' w' conns.
            checkAvailability c r w = (Some b, r', w') \<longrightarrow>
              checkAvailability_seq conns r' w' = (replicate (length conns) (Some b), r', w') \<and>
              connects w' \<le> connects w + 1)"
proof -
  have inv: "isAvailable_cache (sch_recorder st) =
     (if returned st = [] then None else Some (last (returned st)))"
    unfolding assms using sched_init_cache by (rule run_sched_cache)
  have seq: "\<forall>c r w b r' w' conns.
            checkAvailability c r w = (Some b, r', w') \<longrightarrow>
              checkAvailability_seq conns r' w' = (replicate (length conns) (Some b), r', w') \<and>
              connects w' \<le> connects w + 1"
    using checkAvailability_completed checkAvailability_seq_cached by blast
  show ?thesis
  proof (cases "returned st = []")
    case True
    with inv have empty: "isAvailable_cache (sch_recorder st) = None" by simp
    have "connects (sch_world (run_sched evs sched_init)) =
            connects (sch_world sched_init) + length (filter is_start evs)"
      using run_sched_probes [OF sched_init_cache, of evs] True assms by simp
    then have n: "connects (sch_world st) = length (filter is_start evs)"
      using assms by (simp add: sched_init_def)
    have s: "connects (sch_world (start_check conn st)) = connects (sch_world st) + 1"
      "returned (start_check conn st) = []"
      using empty True by (simp_all add: start_check_empty sendMessage_connects)
    from True empty n s seq show ?thesis by simp
  next
    case False
    with inv have full: "isAvailable_cache (sch_recorder st) = Some (last (returned st))"
      by simp
    have s: "start_check conn st = st\<lparr>returned := returned st @ [last (returned st)]\<rparr>"
      using full by (rule start_check_cached)
    have w: "sch_world (run_sched evs' st) = sch_world st"
      using inv False by (rule run_sched_world)
    from False full s w seq show ?thesis by simp
  qed
qed

lemma no_audio_check:
  "checkAvailability no_audio_host new_recorder world0 =
     (Some False, \<lparr>port = None, isAvailable_cache = Some False\<rparr>,
      \<lparr>connects = 1, posted = [Ping]\<rparr>)"
  by (simp add: checkAvailability_def checkAvailability_begin_probe new_recorder_def
        checkAvailability_resume_def sendMessage_promise no_audio_host_def no_audio_reply_def
        sendMessage_world world0_def)

lemma two_started:
  "run_sched [StartCheck no_audio_host, StartCheck pong_host] sched_init =
     \<lparr>sch_recorder = new_recorder,
      sch_world = \<lparr>connects = 2, posted = [Ping, Ping]\<rparr>,
      awaiting = [Resolved 40 no_audio_reply, Resolved 15 pong_reply],
      returned = []\<rparr>"
  by (simp add: sched_init_def start_check_empty new_recorder_def sendMessage_promise
        sendMessage_world no_audio_host_def pong_host_def)

lemma two_completed:
  "run_sched [StartCheck no_audio_host, StartCheck pong_host, ResumeCheck 0, ResumeCheck 0]
     sched_init =
     \<lparr>sch_recorder = \<lparr>port = None, isAvailable_cache = Some True\<rparr>,
      sch_world = \<lparr>connects = 2, posted = [Ping, Ping]\<rparr>,
      awaiting = [],
      returned = [False, True]\<rparr>"
  by (simp add: sched_init_def start_check_empty new_recorder_def sendMessage_promise
        sendMessage_world no_audio_host_def pong_host_def resume_check_def
        checkAvailability_resume_def no_audio_reply_def pong_reply_def)

theorem checkAvailability_cache_under_interleaving_witness:
  "returned (run_sched [StartCheck no_audio_host, StartCheck pong_host] sched_init) = [] \<and>
   connects (sch_world (run_sched [StartCheck no_audio_host, StartCheck pong_host] sched_init)) = 2 \<and>
   connects (sch_world (start_check recording_host
     (run_sched [StartCheck no_audio_host, StartCheck pong_host] sched_init))) = 3 \<and>
   returned (run_sched [StartCheck no_audio_host, StartCheck pong_host, ResumeCheck 0,
     ResumeCheck 0] sched_init) = [False, True] \<and>
   isAvailable_cache (sch_recorder (run_sched [StartCheck no_audio_host, StartCheck pong_host,
     ResumeCheck 0, ResumeCheck 0] sched_init)) = Some True \<and>
   returned (start_check recording_host (run_sched [StartCheck no_audio_host,
     StartCheck pong_host, ResumeCheck 0, ResumeCheck 0] sched_init)) = [False, True, True] \<and>
   connects (sch_world (run_sched [StartCheck recording_host, ResumeCheck 0]
     (run_sched [StartCheck no_audio_host, StartCheck pong_host, ResumeCheck 0,
        ResumeCheck 0] sched_init))) = 2 \<and>
   checkAvailability no_audio_host new_recorder world0 =
     (Some False, unavailable_recorder, unavailable_world) \<and>
   checkAvailability_seq [recording_host, silent_exit_host] unavailable_recorder
     unavailable_world = ([Some False, Some False], unavailable_recorder, unavailable_world)"
proof -
  note started = checkAvailability_cache_under_interleaving
    [OF refl, of "[StartCheck no_audio_host, StartCheck pong_host]" recording_host "[]"]
  note completed = checkAvailability_cache_under_interleaving
    [OF refl, of "[StartCheck no_audio_host, StartCheck pong_host, ResumeCheck 0, ResumeCheck 0]"
      recording_host "[StartCheck recording_host, ResumeCheck 0]"]
  have r2: "returned (run_sched [StartCheck no_audio_host, StartCheck pong_host] sched_init) = []"
    by (simp only: two_started sched_state.simps)
  have r4: "returned (run_sched [StartCheck no_audio_host, StartCheck pong_host, ResumeCheck 0,
     ResumeCheck 0] sched_init) = [False, True]"
    by (simp only: two_completed sched_state.simps)
  have a: "connects (sch_world (run_sched [StartCheck no_audio_host, StartCheck pong_host]
       sched_init)) = 2"
    "connects (sch_world (start_check recording_host
       (run_sched [StartCheck no_audio_host, StartCheck pong_host] sched_init))) = 3"
    using started r2 by (simp_all del: run_sched.simps)
  have b: "isAvailable_cache (sch_recorder (run_sched [StartCheck no_audio_host,
       StartCheck pong_host, ResumeCheck 0, ResumeCheck 0] sched_init)) = Some True"
    "returned (start_check recording_host (run_sched [StartCheck no_audio_host,
       StartCheck pong_host, ResumeCheck 0, ResumeCheck 0] sched_init)) = [False, True, True]"
    "sch_world (run_sched [StartCheck recording_host, ResumeCheck 0]
       (run_sched [StartCheck no_audio_host, StartCheck pong_host, ResumeCheck 0,
          ResumeCheck 0] sched_init)) =
     sch_world (run_sched [StartCheck no_audio_host, StartCheck pong_host, ResumeCheck 0,
          ResumeCheck 0] sched_init)"
    using completed r4 by (simp_all del: run_sched.simps)
  have b3: "connects (sch_world (run_sched [StartCheck recording_host, ResumeCheck 0]
       (run_sched [StartCheck no_audio_host, StartCheck pong_host, ResumeCheck 0,
          ResumeCheck 0] sched_init))) = 2"
    unfolding b(3) by (simp only: two_completed sched_state.simps world.simps)
  have h: "checkAvailability no_audio_host new_recorder world0 =
     (Some False, unavailable_recorder, unavailable_world)"
    by (simp add: unavailable_recorder_def unavailable_world_def no_audio_check)
  have s: "checkAvailability_seq [recording_host, silent_exit_host] unavailable_recorder
     unavailable_world = ([Some False, Some False], unavailable_recorder, unavailable_world)"
    using completed [THEN conjunct2, rule_format, OF h,
      of "[recording_host, silent_exit_host]"]
    by simp
  from r2 a r4 b(1) b(2) b3 h s show ?thesis by - (intro conjI, assumption+)
qed

text \<open>
  Claim C5, as stated, fails: "at most one probe is ever performed" does not hold for
  calls that overlap. Two calls started back to back on a new recorder both find
  \<open>_isAvailable\<close> still \<open>null\<close>, since the first has not resumed from its \<open>await\<close>,
  and each opens a connection of its own.
\<close>

theorem overlapping_checks_probe_twice:
  "fst first_started = Awaiting (Resolved 40 no_audio_reply) \<and>
   fst second_started = Awaiting (Resolved 40 no_audio_reply) \<and>
   connects (snd (snd first_started)) = 1 \<and>
   connects (snd (snd second_started)) = 2"
  by (simp add: first_started_def second_started_def checkAvailability_begin_probe
        new_recorder_def sendMessage_promise no_audio_host_def sendMessage_world world0_def)

subsection \<open>recordAudio and the availability cache\<close>

lemma unavailable_recorder_eq:
  "unavailable_recorder = \<lparr>port = None, isAvailable_cache = Some False\<rparr>"
  by (simp add: unavailable_recorder_def no_audio_check)

lemma unavailable_world_eq:
  "unavailable_world = \<lparr>connects = 1, posted = [Ping]\<rparr>"
  by (simp add: unavailable_world_def no_audio_check)

text \<open>
  Claim C3, as amended. \<open>recordAudio\<close> does not read the availability cache. Whatever
  \<open>checkAvailability\<close> has stored, also \<open>false\<close>, every record call makes one more
  connection attempt, posts the \<open>record\<close> message on it unless \<open>connectNative\<close> throws,
  and has as its result the race between that connection and the timeout timer: after a
  cached \<open>false\<close>, a reply of the host that arrives no later than the timer is returned as
  it is. The result and the effect on the platform are the same with any other content of
  the cache, and the recorder object is left as it was.
\<close>

theorem recordAudio_ignores_cache:
  "connects (snd (snd (recordAudio d e conn r w))) = connects w + 1 \<and>
   posted (snd (snd (recordAudio d e conn r w))) =
     (case conn of ConnectThrows x \<Rightarrow> posted w | Connected evs \<Rightarrow> posted w @ [Record d e]) \<and>
   fst (recordAudio d e conn r w) =
     promise_race (fst (sendMessage (Record d e) conn w)) (nat (record_timeout d)) \<and>
   fst (snd (recordAudio d e conn r w)) = r \<and>
   recordAudio d e conn (r\<lparr>isAvailable_cache := c\<rparr>) w =
     (fst (recordAudio d e conn r w), r\<lparr>isAvailable_cache := c\<rparr>,
      snd (snd (recordAudio d e conn r w))) \<and>
   (\<forall>t resp evs. isAvailable_cache r = Some False \<longrightarrow> t \<le> nat (record_timeout d) \<longrightarrow>
      fst (recordAudio d e (Connected ((t, OnMessage resp) # evs)) r w) = Resolved t resp)"
proof -
  have T: "nat (record_timeout d) \<le> 30000" by (rule record_timeout_le)
  have cn: "connects (snd (snd (recordAudio d e conn r w))) = connects w + 1"
    by (simp add: recordAudio_state sendMessage_connects)
  have po: "posted (snd (snd (recordAudio d e conn r w))) =
     (case conn of ConnectThrows x \<Rightarrow> posted w | Connected evs \<Rightarrow> posted w @ [Record d e])"
    by (simp add: recordAudio_state sendMessage_world split: connection.splits)
  have ra: "fst (recordAudio d e conn r w) =
     promise_race (fst (sendMessage (Record d e) conn w)) (nat (record_timeout d))"
    by (rule recordAudio_promise)
  have re: "fst (snd (recordAudio d e conn r w)) = r"
    by (simp add: recordAudio_state)
  have ca: "recordAudio d e conn (r\<lparr>isAvailable_cache := c\<rparr>) w =
     (fst (recordAudio d e conn r w), r\<lparr>isAvailable_cache := c\<rparr>,
      snd (snd (recordAudio d e conn r w)))"
    by (simp add: prod_eq_iff recordAudio_promise recordAudio_state)
  have rp: "\<forall>t resp evs. isAvailable_cache r = Some False \<longrightarrow> t \<le> nat (record_timeout d) \<longrightarrow>
      fst (recordAudio d e (Connected ((t, OnMessage resp) # evs)) r w) = Resolved t resp"
    using T by (auto simp: recordAudio_promise sendMessage_promise promise_race_def)
  from cn po ra re ca rp show ?thesis by - (intro conjI, assumption+)
qed

theorem recordAudio_ignores_cache_witness:
  "isAvailable_cache unavailable_recorder = Some False \<and>
   (5200::nat) \<le> nat (record_timeout 5000) \<and>
   fst (recordAudio 5000 False recording_host unavailable_recorder unavailable_world) =
     Resolved 5200 wav_reply \<and>
   connects (snd (snd (recordAudio 5000 False recording_host unavailable_recorder
     unavailable_world))) = 2 \<and>
   posted (snd (snd (recordAudio 5000 False recording_host unavailable_recorder
     unavailable_world))) = [Ping, Record 5000 False]"
proof -
  note inst = recordAudio_ignores_cache
    [of 5000 False recording_host unavailable_recorder unavailable_world]
  have c: "isAvailable_cache unavailable_recorder = Some False"
    by (simp add: unavailable_recorder_eq)
  have le: "(5200::nat) \<le> nat (record_timeout 5000)"
    by (simp add: record_timeout_def)
  have rp: "fst (recordAudio 5000 False recording_host unavailable_recorder unavailable_world) =
     Resolved 5200 wav_reply"
    using inst [THEN conjunct2, THEN conjunct2, THEN conjunct2, THEN conjunct2, THEN conjunct2,
      rule_format, OF c le, of wav_reply "[]"]
    by (simp add: recording_host_def)
  have cn: "connects (snd (snd (recordAudio 5000 False recording_host unavailable_recorder
     unavailable_world))) = 2"
    using inst [THEN conjunct1] by (simp add: unavailable_world_eq)
  have po: "posted (snd (snd (recordAudio 5000 False recording_host unavailable_recorder
     unavailable_world))) = [Ping, Record 5000 False]"
    using inst [THEN conjunct2, THEN conjunct1]
    by (simp add: unavailable_world_eq recording_host_def)
  from c le rp cn po show ?thesis by - (intro conjI, assumption+)
qed

text \<open>
  Claim C3, as stated, fails. A host without audio system answers the ping with
  \<open>success: false\<close>, \<open>checkAvailability\<close> returns \<open>false\<close> and caches it; a record call
  made afterwards still connects (the second connection, the \<open>record\<close> message posted)
  and, the host now delivering a recording, resolves with \<open>success: true\<close>.
\<close>

theorem record_after_failed_check_connects:
  "fst (checkAvailability no_audio_host new_recorder world0) = Some False \<and>
   isAvailable_cache unavailable_recorder = Some False \<and>
   connects unavailable_world = 1 \<and>
   fst (recordAudio 5000 False recording_host unavailable_recorder unavailable_world) =
     Resolved 5200 wav_reply \<and>
   success wav_reply \<and>
   connects (snd (snd (recordAudio 5000 False recording_host unavailable_recorder
     unavailable_world))) = 2 \<and>
   posted (snd (snd (recordAudio 5000 False recording_host unavailable_recorder
     unavailable_world))) = [Ping, Record 5000 False]"
  by (simp add: no_audio_check unavailable_recorder_eq unavailable_world_eq
        recordAudio_promise recordAudio_state sendMessage_promise sendMessage_world
        recording_host_def record_timeout_def promise_race_def wav_reply_def)

subsection \<open>How recordAudio settles\<close>

text \<open>
  Claim C6, as amended. The promise of \<open>recordAudio\<close> always settles, and how is decided
  by the first event of the connection, \<open>T\<close> being the race timer
  \<open>nat (min (durationMs + 5000) 30000)\<close>. Resolved, as structured results: the timeout
  result when nothing arrives by \<open>T\<close>, every reply of the native host that arrives by
  \<open>T\<close> (a reply with \<open>success: false\<close> too), and the timeout result after a disconnect
  without error. Rejected, with an \<open>Error\<close>: a \<open>connectNative\<close> that throws, and a
  disconnect with a platform error that arrives by \<open>T\<close>. The rejection of the
  connection's own 60 second timer never reaches the caller.
\<close>

theorem recordAudio_outcomes:
  "fst (recordAudio d e conn r w) =
     (case conn of
        ConnectThrows x \<Rightarrow> Rejected 0 (''Failed to connect to native host: '' @ x)
      | Connected [] \<Rightarrow> Resolved (nat (record_timeout d)) timeout_result
      | Connected ((t, ev) # evs) \<Rightarrow>
          (if nat (record_timeout d) < t then Resolved (nat (record_timeout d)) timeout_result
           else case ev of
                  OnMessage resp \<Rightarrow> Resolved t resp
                | OnDisconnect (Some m) \<Rightarrow> Rejected t (''Native host error: '' @ m)
                | OnDisconnect None \<Rightarrow> Resolved (nat (record_timeout d)) timeout_result))"
proof (cases conn)
  case (ConnectThrows x)
  then show ?thesis
    by (simp add: recordAudio_promise sendMessage_promise promise_race_def)
next
  case (Connected evs)
  show ?thesis
  proof (cases evs)
    case Nil
    with Connected record_timeout_le [of d] show ?thesis
      by (simp add: recordAudio_promise sendMessage_promise promise_race_def)
  next
    case (Cons tev rest)
    obtain t ev where tev: "tev = (t, ev)" by (cases tev)
    show ?thesis
    proof (cases ev)
      case (OnMessage resp)
      with Connected Cons tev record_timeout_le [of d] show ?thesis
        by (auto simp: recordAudio_promise sendMessage_promise promise_race_def)
    next
      case (OnDisconnect err)
      with Connected Cons tev record_timeout_le [of d] show ?thesis
        by (cases err) (auto simp: recordAudio_promise sendMessage_promise promise_race_def)
    qed
  qed
qed

text \<open>
  Claim C6, as stated, fails: the promise of \<open>recordAudio\<close> does reject. When
  \<open>connectNative\<close> throws the promise is rejected at once, and when the port disconnects
  with a platform error (the host is not installed) it is rejected with that error;
  neither is turned into a \<open>{success: false}\<close> result.
\<close>

theorem recordAudio_rejects_transport_errors:
  "fst (recordAudio 5000 False (ConnectThrows ''TypeError: browser.runtime.connectNative is not a function'')
         new_recorder world0) =
     Rejected 0 ''Failed to connect to native host: TypeError: browser.runtime.connectNative is not a function'' \<and>
   fst (recordAudio 5000 False
         (Connected [(120, OnDisconnect (Some ''Specified native messaging host not found.''))])
         new_recorder world0) =
     Rejected 120 ''Native host error: Specified native messaging host not found.''"
  by (simp add: recordAudio_promise sendMessage_promise promise_race_def record_timeout_def)

subsection \<open>A host that exits without error before replying\<close>

text \<open>
  Claim C7, at the input where the code leaves it. The native host exits 100 ms after
  the connection, no error reported and no reply sent: the disconnect listener clears the
  60 second timer and settles nothing, so the promise of \<open>ping\<close> is pending for ever, past
  the 60 second mark, and \<open>checkAvailability\<close> never returns.
\<close>

theorem ping_pending_after_silent_exit:
  "fst (ping silent_exit_host world0) = Pending \<and>
   settle_time (fst (ping silent_exit_host world0)) = None \<and>
   fst (checkAvailability silent_exit_host new_recorder world0) = None \<and>
   isAvailable_cache (fst (snd (checkAvailability silent_exit_host new_recorder world0))) = None"
  by (simp add: ping_def sendMessage_promise silent_exit_host_def settle_time_def
        checkAvailability_def checkAvailability_begin_probe new_recorder_def
        checkAvailability_resume_def)

text \<open>
  Claim C8, at the input where the code leaves it. A disconnect without error after the
  reply is benign: the promise was resolved by the reply. A disconnect without error
  before any reply produces no failure either: \<open>sendMessage\<close> neither resolves nor
  rejects. A record call then ends with the timeout result of its own race timer, 10
  seconds after the call for a duration of 5 seconds.
\<close>

theorem silent_exit_before_reply_is_no_failure:
  "fst (sendMessage (Record 5000 False)
         (Connected [(250, OnMessage wav_reply), (251, OnDisconnect None)]) world0) =
     Resolved 250 wav_reply \<and>
   fst (sendMessage (Record 5000 False) (Connected [(250, OnDisconnect None)]) world0) =
     Pending \<and>
   fst (recordAudio 5000 False (Connected [(250, OnDisconnect None)]) new_recorder world0) =
     Resolved 10000 timeout_result"
  by (simp add: recordAudio_promise sendMessage_promise promise_race_def record_timeout_def)

section \<open>Properties of the command dispatch\<close>

lemma registration_matches_code:
  "registration_matches h req = (sender_matches h req \<and> command_matches h req)"
  by (auto simp: registration_matches_def sender_matches_def command_matches_def
           split: sender_spec.splits option.splits)

lemma listener_from_first_match:
  "listener_from i hs req trace s =
     (case first_match i hs req of
        None \<Rightarrow> (ListenerUndefined, trace, s)
      | Some (j, h) \<Rightarrow>
          (outcome_of (fst (handle h req s)), trace @ [j], snd (handle h req s)))"
proof (induction hs arbitrary: i)
  case Nil
  show ?case by simp
next
  case (Cons h hs)
  show ?case
  proof (cases "registration_matches h req")
    case True
    then show ?thesis
      by (cases "handle h req s"; cases "fst (handle h req s)")
         (auto simp: registration_matches_code outcome_of_def)
  next
    case False
    then show ?thesis
      using Cons.IH [of "Suc i"] by (auto simp: registration_matches_code)
  qed
qed

lemma first_match_Some:
  "first_match i hs req = Some (j, h) \<Longrightarrow>
     i \<le> j \<and> j - i < length hs \<and> hs ! (j - i) = h \<and> registration_matches h req \<and>
     (\<forall>k < j - i. \<not> registration_matches (hs ! k) req)"
proof (induction hs arbitrary: i)
  case Nil
  then show ?case by simp
next
  case (Cons a hs)
  show ?case
  proof (cases "registration_matches a req")
    case True
    with Cons.prems show ?thesis by simp
  next
    case False
    with Cons.prems have fm: "first_match (Suc i) hs req = Some (j, h)" by simp
    from Cons.IH [OF fm]
    have ih: "Suc i \<le> j" "j - Suc i < length hs" "hs ! (j - Suc i) = h"
      "registration_matches h req"
      "\<forall>k < j - Suc i. \<not> registration_matches (hs ! k) req"
      by auto
    have eq: "j - i = Suc (j - Suc i)" using ih(1) by simp
    have "\<forall>k < j - i. \<not> registration_matches ((a # hs) ! k) req"
    proof (intro allI impI)
      fix k assume "k < j - i"
      then show "\<not> registration_matches ((a # hs) ! k) req"
        using False ih(5) eq by (cases k) auto
    qed
    then show ?thesis using ih eq by simp
  qed
qed

lemma first_match_None:
  "first_match i hs req = None \<Longrightarrow> \<forall>h \<in> set hs. \<not> registration_matches h req"
  by (induction hs arbitrary: i) (auto split: if_splits)

text \<open>
  Claim C2. For every inbound command the listener calls at most one handler. The
  handlers are scanned in list order; a handler matches when its accepted senders contain
  the command's sender and its accepted command is the wildcard or the command's name. The
  first match, and no earlier or later handler, is called exactly once on the state the
  command found, and the scan stops there; when nothing matches, no handler is called and
  the state is untouched.
\<close>

theorem listener_invokes_first_match_only:
  "length (fst (snd (listener hs req s))) \<le> 1 \<and>
   listener hs req s =
     (case first_match 0 hs req of
        None \<Rightarrow> (ListenerUndefined, [], s)
      | Some (j, h) \<Rightarrow> (outcome_of (fst (handle h req s)), [j], snd (handle h req s))) \<and>
   (\<forall>j h. first_match 0 hs req = Some (j, h) \<longrightarrow>
      j < length hs \<and> hs ! j = h \<and> registration_matches h req \<and>
      (\<forall>k < j. \<not> registration_matches (hs ! k) req)) \<and>
   (first_match 0 hs req = None \<longrightarrow> (\<forall>h \<in> set hs. \<not> registration_matches h req))"
proof -
  have run: "listener hs req s =
     (case first_match 0 hs req of
        None \<Rightarrow> (ListenerUndefined, [], s)
      | Some (j, h) \<Rightarrow> (outcome_of (fst (handle h req s)), [j], snd (handle h req s)))"
    by (simp add: listener_def listener_from_first_match split: option.splits)
  have len: "length (fst (snd (listener hs req s))) \<le> 1"
    unfolding run by (simp split: option.splits prod.splits)
  have some: "\<forall>j h. first_match 0 hs req = Some (j, h) \<longrightarrow>
      j < length hs \<and> hs ! j = h \<and> registration_matches h req \<and>
      (\<forall>k < j. \<not> registration_matches (hs ! k) req)"
    using first_match_Some [of 0 hs req] by auto
  have none: "first_match 0 hs req = None \<longrightarrow> (\<forall>h \<in> set hs. \<not> registration_matches h req)"
    using first_match_None [of 0 hs req] by blast
  from len run some none show ?thesis by - (intro conjI, assumption+)
qed

lemma popup_first_match:
  "first_match 0 [heartbeat_handler, forwarding_handler, catch_all_handler] popup_request =
     Some (1, forwarding_handler)"
  by (simp add: registration_matches_def heartbeat_handler_def forwarding_handler_def
        popup_request_def)

theorem listener_invokes_first_match_only_witness:
  "first_match 0 [heartbeat_handler, forwarding_handler, catch_all_handler] popup_request =
     Some (1, forwarding_handler) \<and>
   registration_matches catch_all_handler popup_request \<and>
   listener [heartbeat_handler, forwarding_handler, catch_all_handler] popup_request 5 =
     (ListenerTrue, [1], 15) \<and>
   \<not> registration_matches heartbeat_handler popup_request"
proof -
  have c: "registration_matches catch_all_handler popup_request"
    by (simp add: registration_matches_def catch_all_handler_def popup_request_def)
  have o: "outcome_of (fst (handle forwarding_handler popup_request 5)) = ListenerTrue"
    "snd (handle forwarding_handler popup_request 5) = 15"
    by (simp_all add: forwarding_handler_def outcome_of_def)
  note inst = listener_invokes_first_match_only
    [of "[heartbeat_handler, forwarding_handler, catch_all_handler]" popup_request 5]
  have run0: "listener [heartbeat_handler, forwarding_handler, catch_all_handler] popup_request 5 =
     (case first_match 0 [heartbeat_handler, forwarding_handler, catch_all_handler] popup_request of
        None \<Rightarrow> (ListenerUndefined, [], 5)
      | Some (j, h) \<Rightarrow>
          (outcome_of (fst (handle h popup_request 5)), [j], snd (handle h popup_request 5)))"
    by (rule inst [THEN conjunct2, THEN conjunct1])
  have run: "listener [heartbeat_handler, forwarding_handler, catch_all_handler] popup_request 5 =
     (ListenerTrue, [1], 15)"
    unfolding run0 popup_first_match using o by simp
  have "\<forall>k < 1. \<not> registration_matches
       ([heartbeat_handler, forwarding_handler, catch_all_handler] ! k) popup_request"
    using inst [THEN conjunct2, THEN conjunct2, THEN conjunct1, rule_format,
      OF popup_first_match]
    by (elim conjE)
  then have "\<not> registration_matches
       ([heartbeat_handler, forwarding_handler, catch_all_handler] ! 0) popup_request"
    by blast
  then have h: "\<not> registration_matches heartbeat_handler popup_request"
    by simp
  from popup_first_match c run h show ?thesis by - (intro conjI, assumption+)
qed

text \<open>
  Claim C4, as amended. No \<open>try\<close> surrounds the call of \<open>handler.handle\<close>: an exception
  raised inside the first matching handler's action leaves the listener as it is, neither
  logged nor converted by this code, to whoever called the listener (the platform's
  event dispatch). The state is as the handler left it when it threw, and no other handler
  is called for that command. The listener keeps nothing from one command to the next,
  so what becomes of later messages is for the platform to decide.
\<close>

theorem listener_handler_exception_propagates:
  assumes "first_match 0 hs req = Some (j, h)"
      and "handle h req s = (Throws e, s')"
  shows "listener hs req s = (ListenerThrew e, [j], s')"
  using assms by (simp add: listener_def listener_from_first_match outcome_of_def)

theorem listener_handler_exception_propagates_witness:
  "first_match 0 [heartbeat_handler, failing_handler, forwarding_handler] record_request =
     Some (1, failing_handler) \<and>
   handle failing_handler record_request 7 = (Throws ''TypeError: tab is undefined'', 1007) \<and>
   listener [heartbeat_handler, failing_handler, forwarding_handler] record_request 7 =
     (ListenerThrew ''TypeError: tab is undefined'', [1], 1007)"
proof -
  have fm: "first_match 0 [heartbeat_handler, failing_handler, forwarding_handler] record_request =
     Some (1, failing_handler)"
    by (simp add: registration_matches_def heartbeat_handler_def failing_handler_def
          record_request_def)
  have th: "handle failing_handler record_request 7 = (Throws ''TypeError: tab is undefined'', 1007)"
    by (simp add: failing_handler_def)
  show ?thesis
    using fm th listener_handler_exception_propagates [OF fm th] by simp
qed

text \<open>
  Claim C4, as stated, fails: the exception is not caught at the listener. With a single
  handler that throws on the command it accepts, the listener does not end like an
  unhandled command (returning \<open>undefined\<close>, as it does for a command nobody accepts): the
  exception is its outcome.
\<close>

theorem listener_does_not_catch:
  "fst (listener [failing_handler] record_request 0) = ListenerThrew ''TypeError: tab is undefined'' \<and>
   fst (listener [failing_handler] record_request 0) \<noteq> ListenerUndefined \<and>
   fst (listener [failing_handler] popup_request 0) = ListenerUndefined"
  by (simp add: listener_def sender_matches_def command_matches_def failing_handler_def
        record_request_def popup_request_def)

section \<open>Properties of the singleton\<close>

lemma getNativeAudioRecorder_set:
  "nativeAudioRecorder m = Some a \<Longrightarrow> getNativeAudioRecorder m = (a, m)"
  by (simp add: getNativeAudioRecorder_def)

lemma getNativeAudioRecorder_sets:
  "getNativeAudioRecorder m = (a, m1) \<Longrightarrow> nativeAudioRecorder m1 = Some a"
  by (auto simp: getNativeAudioRecorder_def Let_def split: option.splits)

lemma getNativeAudioRecorder_calls_set:
  "nativeAudioRecorder m = Some a \<Longrightarrow> getNativeAudioRecorder_calls n m = (replicate n a, m)"
  by (induction n) (simp_all add: getNativeAudioRecorder_set)

lemma checkAvailability_at_module_variable:
  "checkAvailability_at a conn m w = (res, m2, w') \<Longrightarrow>
     nativeAudioRecorder m2 = nativeAudioRecorder m"
  by (auto simp: checkAvailability_at_def split: option.splits prod.splits)

lemma checkAvailability_at_result:
  assumes "checkAvailability_at a conn m w = (Some c, m2, w')"
  shows "isAvailable_at a m2 = c"
proof (cases "heap m a")
  case None
  with assms show ?thesis by (simp add: checkAvailability_at_def)
next
  case (Some r)
  obtain res r' w1 where run: "checkAvailability conn r w = (res, r', w1)"
    by (cases "checkAvailability conn r w") auto
  with assms Some have res: "res = Some c" and m2: "m2 = m\<lparr>heap := (heap m)(a \<mapsto> r')\<rparr>"
    by (simp_all add: checkAvailability_at_def)
  from run res have "isAvailable_cache r' = Some c"
    using checkAvailability_completed [of conn r w c r' w1] by simp
  with m2 show ?thesis
    by (simp add: isAvailable_at_def isAvailable_def)
qed

text \<open>
  Claim C9. \<open>getNativeAudioRecorder\<close> is idempotent: from any state of the module, every
  one of any number of successive calls returns the reference the first call returned,
  and only the first can allocate. A \<open>checkAvailability\<close> made through that reference
  leaves the module variable alone, so a call of \<open>getNativeAudioRecorder\<close> made afterwards
  returns the same reference again, and the availability stored through the one is read
  through the other.
\<close>

theorem getNativeAudioRecorder_singleton:
  assumes "getNativeAudioRecorder m = (a, m1)"
      and "checkAvailability_at a conn m1 w = (res, m2, w')"
  shows "fst (getNativeAudioRecorder_calls (Suc n) m) = replicate (Suc n) a \<and>
         snd (getNativeAudioRecorder_calls (Suc n) m) = m1 \<and>
         getNativeAudioRecorder m1 = (a, m1) \<and>
         getNativeAudioRecorder m2 = (a, m2) \<and>
         (case res of None \<Rightarrow> True
                    | Some c \<Rightarrow> isAvailable_at (fst (getNativeAudioRecorder m2)) m2 = c)"
proof -
  have v1: "nativeAudioRecorder m1 = Some a"
    using assms(1) by (rule getNativeAudioRecorder_sets)
  have v2: "nativeAudioRecorder m2 = Some a"
    using checkAvailability_at_module_variable [OF assms(2)] v1 by simp
  have calls: "getNativeAudioRecorder_calls (Suc n) m = (replicate (Suc n) a, m1)"
    using assms(1) getNativeAudioRecorder_calls_set [OF v1, of n] by simp
  have g1: "getNativeAudioRecorder m1 = (a, m1)"
    using v1 by (rule getNativeAudioRecorder_set)
  have g2: "getNativeAudioRecorder m2 = (a, m2)"
    using v2 by (rule getNativeAudioRecorder_set)
  have shared: "case res of None \<Rightarrow> True
                    | Some c \<Rightarrow> isAvailable_at (fst (getNativeAudioRecorder m2)) m2 = c"
  proof (cases res)
    case None
    then show ?thesis by simp
  next
    case (Some c)
    with assms(2) have "isAvailable_at a m2 = c"
      using checkAvailability_at_result [of a conn m1 w c m2 w'] by simp
    with Some g2 show ?thesis by simp
  qed
  from calls g1 g2 shared show ?thesis by simp
qed

lemma pong_check:
  "checkAvailability (Connected [(15, OnMessage pong_reply)]) new_recorder world0 =
     (Some True, \<lparr>port = None, isAvailable_cache = Some True\<rparr>,
      \<lparr>connects = 1, posted = [Ping]\<rparr>)"
  by (simp add: checkAvailability_def checkAvailability_begin_probe new_recorder_def
        checkAvailability_resume_def sendMessage_promise pong_reply_def
        sendMessage_world world0_def)

theorem getNativeAudioRecorder_singleton_witness:
  "fst (getNativeAudioRecorder module_loaded) = 0 \<and>
   fst (checkAvailability_at 0 (Connected [(15, OnMessage pong_reply)])
          (snd (getNativeAudioRecorder module_loaded)) world0) = Some True \<and>
   fst (getNativeAudioRecorder_calls 3 module_loaded) = [0, 0, 0] \<and>
   fst (getNativeAudioRecorder
          (fst (snd (checkAvailability_at 0 (Connected [(15, OnMessage pong_reply)])
             (snd (getNativeAudioRecorder module_loaded)) world0)))) = 0 \<and>
   isAvailable_at 0
     (fst (snd (checkAvailability_at 0 (Connected [(15, OnMessage pong_reply)])
        (snd (getNativeAudioRecorder module_loaded)) world0)))"
proof -
  let ?m1 = "snd (getNativeAudioRecorder module_loaded)"
  let ?run = "checkAvailability_at 0 (Connected [(15, OnMessage pong_reply)]) ?m1 world0"
  have a: "fst (getNativeAudioRecorder module_loaded) = 0"
    by (simp add: getNativeAudioRecorder_def module_loaded_def)
  have h1: "getNativeAudioRecorder module_loaded = (0, ?m1)"
    using a by (simp add: prod_eq_iff)
  have hp: "heap ?m1 0 = Some new_recorder"
    by (simp add: getNativeAudioRecorder_def module_loaded_def)
  have res: "fst ?run = Some True"
    by (simp add: checkAvailability_at_def hp pong_check)
  have h2: "?run = (Some True, fst (snd ?run), snd (snd ?run))"
    using res by (simp add: prod_eq_iff)
  note inst = getNativeAudioRecorder_singleton [OF h1 h2, of 2]
  have calls: "fst (getNativeAudioRecorder_calls 3 module_loaded) = [0, 0, 0]"
    using inst [THEN conjunct1] by (simp add: numeral_3_eq_3)
  have g2: "getNativeAudioRecorder (fst (snd ?run)) = (0, fst (snd ?run))"
    by (rule inst [THEN conjunct2, THEN conjunct2, THEN conjunct2, THEN conjunct1])
  have sh: "isAvailable_at (fst (getNativeAudioRecorder (fst (snd ?run)))) (fst (snd ?run)) = True"
    using inst [THEN conjunct2, THEN conjunct2, THEN conjunct2, THEN conjunct2] by simp
  have g2': "fst (getNativeAudioRecorder (fst (snd ?run))) = 0"
    using g2 by simp
  from sh g2' have sh': "isAvailable_at 0 (fst (snd ?run))" by simp
  from a res calls g2' sh' show ?thesis by - (intro conjI, assumption+)
qed

section \<open>Properties of the sidebar service\<close>

text \<open>
  Claim C10. On a build that is not the Firefox build, \<open>isOpen\<close> returns \<open>false\<close>
  whatever the state of the browser, without touching it, and \<open>toggle\<close> always fails
  with the error \<open>Chrome toggle should be handled by toggle-side-panel-handler\<close>; on the
  Firefox build both are the platform's \<open>sidebarAction.isOpen\<close> and
  \<open>sidebarAction.toggle\<close>.
\<close>

theorem sidebar_isOpen_toggle_by_build:
  "isOpen False api w = (Inr False, w) \<and>
   toggle False api w =
     (Inl ''Chrome toggle should be handled by toggle-side-panel-handler'', w) \<and>
   isOpen True api w = sidebarAction_isOpen api w \<and>
   toggle True api w = sidebarAction_toggle api w"
  by (simp add: isOpen_def toggle_def)

theorem sidebar_isOpen_toggle_by_build_witness:
  "isOpen False bool_sidebar True = (Inr False, True) \<and>
   toggle False bool_sidebar True =
     (Inl ''Chrome toggle should be handled by toggle-side-panel-handler'', True) \<and>
   isOpen True bool_sidebar True = (Inr True, True) \<and>
   toggle True bool_sidebar True = (Inr (), False)"
  using sidebar_isOpen_toggle_by_build [of bool_sidebar True]
  by (simp add: bool_sidebar_def)

end
